theory Spec2Isabelle
  imports Main "HOL-Library.List_Lexorder" "HOL-Library.Multiset"
begin

section \<open>Python values\<close>

text \<open>
  A Python \<open>str\<close> is a sequence of Unicode code points, modelled as a list of naturals.
  The order that \<open>List_Lexorder\<close> puts on such lists is the one Python compares strings
  with: code point by code point, a proper prefix first.
\<close>

type_synonym str = "nat list"

definition ascii :: "string \<Rightarrow> str" where
  "ascii s = map of_char s"

text \<open>
  What \<open>json.loads\<close> returns: \<open>None\<close>, a bool, an int, a str, a list or a dict (keys in
  insertion order). A dict is an association list whose keys are pairwise different, as
  the parser builds it. JSON numbers with a fraction or an exponent (Python floats) are
  not part of the model.
\<close>

datatype json =
    JNull
  | JBool bool
  | JInt int
  | JStr str
  | JArr "json list"
  | JObj "(str \<times> json) list"

text \<open>Truth value testing (\<open>if x\<close>, \<open>not x\<close>, \<open>x and y\<close>).\<close>

fun truthy :: "json \<Rightarrow> bool" where
  "truthy JNull = False"
| "truthy (JBool b) = b"
| "truthy (JInt n) = (n \<noteq> 0)"
| "truthy (JStr s) = (s \<noteq> [])"
| "truthy (JArr xs) = (xs \<noteq> [])"
| "truthy (JObj kvs) = (kvs \<noteq> [])"

text \<open>Lists and dicts have no hash: looking one up in a set raises \<open>TypeError\<close>.\<close>

fun hashable :: "json \<Rightarrow> bool" where
  "hashable (JArr xs) = False"
| "hashable (JObj kvs) = False"
| "hashable v = True"

text \<open>
  Equality of hashable values, as set membership uses it: a bool is the int 0 or 1
  (\<open>True == 1\<close>), everything else is equal to itself only.
\<close>

fun num_val :: "json \<Rightarrow> int option" where
  "num_val (JBool b) = Some (if b then 1 else 0)"
| "num_val (JInt n) = Some n"
| "num_val v = None"

definition py_eq :: "json \<Rightarrow> json \<Rightarrow> bool" where
  "py_eq x y =
     (case num_val x of
        Some a \<Rightarrow> (case num_val y of Some b \<Rightarrow> a = b | None \<Rightarrow> False)
      | None \<Rightarrow> (case num_val y of Some b \<Rightarrow> False | None \<Rightarrow> x = y))"

definition py_in :: "json \<Rightarrow> json set \<Rightarrow> bool" where
  "py_in x S = (\<exists>y\<in>S. py_eq x y)"

text \<open>\<open>isinstance(x, list)\<close>.\<close>

fun is_list :: "json \<Rightarrow> bool" where
  "is_list (JArr xs) = True"
| "is_list v = False"

text \<open>\<open>str.isspace\<close> of one code point, and \<open>str.strip()\<close> with no argument.\<close>

definition isspace :: "nat \<Rightarrow> bool" where
  "isspace c =
     ((9 \<le> c \<and> c \<le> 13) \<or> (28 \<le> c \<and> c \<le> 32) \<or> c = 133 \<or> c = 160 \<or> c = 5760 \<or>
      (8192 \<le> c \<and> c \<le> 8202) \<or> c = 8232 \<or> c = 8233 \<or> c = 8239 \<or> c = 8287 \<or> c = 12288)"

definition strip :: "str \<Rightarrow> str" where
  "strip s = rev (dropWhile isspace (rev (dropWhile isspace s)))"

definition endswith :: "str \<Rightarrow> str \<Rightarrow> bool" where
  "endswith s suffix =
     (length suffix \<le> length s \<and> drop (length s - length suffix) s = suffix)"

text \<open>\<open>str(n)\<close> of a non-negative int: its decimal digits.\<close>

fun str_of_nat :: "nat \<Rightarrow> str" where
  "str_of_nat n =
     (if n < 10 then [48 + n] else str_of_nat (n div 10) @ [48 + n mod 10])"

declare str_of_nat.simps [simp del]

section \<open>The marker and the default nicknames\<close>

definition MARKER :: str where
  "MARKER = ascii ''_END''"

text \<open>
  \<open>secret_value[:-len(MARKER)]\<close> drops the last \<open>len(MARKER)\<close> code points; the slice is
  taken only when the string ends with the marker, so it is at least that long.
\<close>

definition remove_marker :: "str \<Rightarrow> str" where
  "remove_marker secret_value =
     (if secret_value \<noteq> [] \<and> endswith secret_value MARKER
      then take (length secret_value - length MARKER) secret_value
      else secret_value)"

text \<open>The five code points of the default prefix (U+672A U+547D U+540D U+8D26 U+53F7).\<close>

definition DEFAULT_NICKNAME_PREFIX :: str where
  "DEFAULT_NICKNAME_PREFIX = [26410, 21629, 21517, 36134, 21495]"

text \<open>The placeholder of the standalone pair: the prefix, a hyphen, U+72EC U+7ACB.\<close>

definition STANDALONE_NICKNAME :: str where
  "STANDALONE_NICKNAME = DEFAULT_NICKNAME_PREFIX @ [45, 29420, 31435]"

text \<open>The f-string of \<open>get_next_default_nickname\<close>: prefix, hyphen, counter.\<close>

definition default_nickname :: "nat \<Rightarrow> str" where
  "default_nickname n = DEFAULT_NICKNAME_PREFIX @ ascii ''-'' @ str_of_nat n"

section \<open>Accounts, messages and the state of one run\<close>

record account =
  nickname :: json
  token :: json

record config =
  log_level :: str
  users :: "account list"

text \<open>The two shapes of the bulk list: the compact one (new) and the explicit one (old).\<close>

datatype fmt = New | Old

datatype type_error = RootNotArray | BadListFormat | Unhashable json

datatype exn =
    JSONDecodeError str
  | ValueError str
  | TypeError type_error
  | UnicodeEncodeError str
  | RecursionError
  | AttributeError
  | IndexError

text \<open>
  Standard output is taken to be UTF-8, Python's default, which the program's own texts
  (Chinese and emoji) need. A \<open>print\<close> then fails exactly when its text holds a
  surrogate code point (U+D800 to U+DFFF; a JSON escape can give one), with
  \<open>UnicodeEncodeError\<close>, a \<open>ValueError\<close>. The fixed texts, the numbers and the texts of
  exceptions hold none. An interpolated nickname can: a string is printed as it is, any
  other value by \<open>str()\<close>, which is ASCII or shows strings by \<open>repr\<close>, where surrogates
  are escaped.
\<close>

definition is_surrogate :: "nat \<Rightarrow> bool" where
  "is_surrogate c = (55296 \<le> c \<and> c \<le> 57343)"

definition encodable :: "str \<Rightarrow> bool" where
  "encodable s = (\<not> list_ex is_surrogate s)"

fun printable :: "json \<Rightarrow> bool" where
  "printable (JStr s) = encodable s"
| "printable v = True"

fun str_of :: "json \<Rightarrow> str" where
  "str_of (JStr s) = s"
| "str_of v = []"

text \<open>The lines the program prints, with the values it interpolates.\<close>

datatype msg =
    Start
  | DetectedJson
  | Recognised fmt
  | WarnEmptyToken fmt
  | WarnDuplicateToken fmt json
  | LoadedFromJson nat
  | ErrInvalidJson str
  | ErrBadFormat exn
  | DetectedStandalone
  | LoadedStandalone
  | WarnStandaloneDuplicate
  | ErrNoAccounts
  | AllMerged nat
  | ErrWriteFailed str

text \<open>
  The variables \<open>load_and_merge_accounts\<close> mutates, the global counter among them, and
  what has been printed so far. A raise leaves the state as it is at that point.
\<close>

record state =
  final_accounts :: "account list"
  seen_tokens :: "json set"
  unnamed_account_counter :: nat
  printed :: "msg list"

definition say :: "msg \<Rightarrow> state \<Rightarrow> state" where
  "say m s = s\<lparr>printed := printed s @ [m]\<rparr>"

definition get_next_default_nickname :: "state \<Rightarrow> str \<times> state" where
  "get_next_default_nickname s =
     (let s' = s\<lparr>unnamed_account_counter := unnamed_account_counter s + 1\<rparr>
      in (default_nickname (unnamed_account_counter s'), s'))"

section \<open>The library and the environment\<close>

datatype write_outcome = WriteOk | OpenFailed str | DumpFailed str

text \<open>
  What the program calls and does not define: \<open>json.loads\<close>; \<open>list.sort\<close> on keys that
  are not all strings (on strings it is the stable sort by code points, modelled below);
  opening \<open>config.yaml\<close> and dumping the document into it.
\<close>

record platform =
  json_loads :: "str \<Rightarrow> exn + json"
  list_sort :: "account list \<Rightarrow> exn + account list"
  file_write :: "config \<Rightarrow> write_outcome"

text \<open>\<open>os.environ.get(name, '')\<close>: an unset variable reads as the empty string.\<close>

record env =
  SKLAND_ACCOUNTS_JSON :: str
  SKLAND_TOKEN :: str
  SKLAND_NICKNAME :: str

section \<open>The bulk list\<close>

fun is_new_item :: "json \<Rightarrow> bool" where
  "is_new_item (JObj kvs) = (length kvs = 1)"
| "is_new_item v = False"

fun is_old_item :: "json \<Rightarrow> bool" where
  "is_old_item (JObj kvs) =
     (ascii ''nickname'' \<in> set (map fst kvs) \<and> ascii ''token'' \<in> set (map fst kvs))"
| "is_old_item v = False"

text \<open>The \<open>if all(...) / elif all(...) / else raise\<close> over the parsed list.\<close>

definition detect_format :: "json list \<Rightarrow> fmt option" where
  "detect_format raw_data =
     (if list_all is_new_item raw_data then Some New
      else if list_all is_old_item raw_data then Some Old
      else None)"

definition dict_get :: "(str \<times> json) list \<Rightarrow> str \<Rightarrow> json \<Rightarrow> json" where
  "dict_get kvs k d = (case map_of kvs k of Some v \<Rightarrow> v | None \<Rightarrow> d)"

text \<open>
  The raw nickname and the token a loop reads from one item:
  \<open>list(item.keys())[0]\<close> and \<open>list(item.values())[0]\<close> in the new format,
  \<open>item.get('nickname', '')\<close> and \<open>item.get('token', '')\<close> in the old one.
\<close>

fun entry :: "fmt \<Rightarrow> json \<Rightarrow> exn + (json \<times> json)" where
  "entry New (JObj ((k, v) # kvs)) = Inr (JStr k, v)"
| "entry New (JObj []) = Inl IndexError"
| "entry Old (JObj kvs) =
     Inr (dict_get kvs (ascii ''nickname'') (JStr []), dict_get kvs (ascii ''token'') (JStr []))"
| "entry f v = Inl AttributeError"

text \<open>
  The \<open>if token and token not in seen_tokens / elif not token / else\<close> of both loops.
  Only the warning of a duplicate interpolates the nickname; when that cannot be printed
  the \<open>print\<close> raises, inside the \<open>try\<close>.
\<close>

definition accept_or_skip :: "fmt \<Rightarrow> json \<Rightarrow> json \<Rightarrow> state \<Rightarrow> exn option \<times> state" where
  "accept_or_skip f nick tok s =
     (if truthy tok then
        (if \<not> hashable tok then (Some (TypeError (Unhashable tok)), s)
         else if \<not> py_in tok (seen_tokens s) then
           (None, s\<lparr>final_accounts := final_accounts s @ [\<lparr>nickname = nick, token = tok\<rparr>],
                    seen_tokens := insert tok (seen_tokens s)\<rparr>)
         else if printable nick then (None, say (WarnDuplicateToken f nick) s)
         else (Some (UnicodeEncodeError (str_of nick)), s))
      else (None, say (WarnEmptyToken f) s))"

text \<open>One pass of the loop body: the nickname is settled first, then the token is tested.\<close>

definition process_item :: "fmt \<Rightarrow> json \<Rightarrow> state \<Rightarrow> exn option \<times> state" where
  "process_item f item s =
     (case entry f item of
        Inl e \<Rightarrow> (Some e, s)
      | Inr (raw_nickname, tok) \<Rightarrow>
          (if truthy raw_nickname then accept_or_skip f raw_nickname tok s
           else (case get_next_default_nickname s of
                   (n, s') \<Rightarrow> accept_or_skip f (JStr n) tok s')))"

fun bulk_loop :: "fmt \<Rightarrow> json list \<Rightarrow> state \<Rightarrow> exn option \<times> state" where
  "bulk_loop f [] s = (None, s)"
| "bulk_loop f (item # items) s =
     (case process_item f item s of
        (Some e, s') \<Rightarrow> (Some e, s')
      | (None, s') \<Rightarrow> bulk_loop f items s')"

text \<open>The body of the \<open>try\<close> after the parse: root check, format detection, loop.\<close>

definition process_raw_data :: "json \<Rightarrow> state \<Rightarrow> exn option \<times> state" where
  "process_raw_data raw_data s =
     (case raw_data of
        JArr items \<Rightarrow>
          (case detect_format items of
             Some f \<Rightarrow>
               (case bulk_loop f items (say (Recognised f) s) of
                  (Some e, s') \<Rightarrow> (Some e, s')
                | (None, s') \<Rightarrow> (None, say (LoadedFromJson (length (final_accounts s'))) s'))
           | None \<Rightarrow> (Some (TypeError BadListFormat), s))
      | _ \<Rightarrow> (Some (TypeError RootNotArray), s))"

definition try_bulk :: "platform \<Rightarrow> str \<Rightarrow> state \<Rightarrow> exn option \<times> state" where
  "try_bulk P json_str s =
     (case json_loads P json_str of
        Inl e \<Rightarrow> (Some e, s)
      | Inr raw_data \<Rightarrow> process_raw_data raw_data s)"

section \<open>load_and_merge_accounts\<close>

text \<open>How a run ends early: \<open>sys.exit(n)\<close>, or an exception nothing catches.\<close>

datatype abort = SysExit nat | Uncaught exn

definition initial_state :: state where
  "initial_state =
     \<lparr>final_accounts = [], seen_tokens = {}, unnamed_account_counter = 0, printed = [Start]\<rparr>"

text \<open>
  Part 1, the bulk variable with its \<open>except\<close> clauses. \<open>JSONDecodeError\<close> is caught by
  the first clause, \<open>TypeError\<close> and \<open>ValueError\<close> (\<open>UnicodeEncodeError\<close> is one) by the
  second, nothing else is caught.
\<close>

definition load_bulk :: "platform \<Rightarrow> env \<Rightarrow> abort option \<times> state" where
  "load_bulk P E =
     (let json_str = SKLAND_ACCOUNTS_JSON E in
      if json_str \<noteq> [] then
        (case try_bulk P json_str (say DetectedJson initial_state) of
           (None, s) \<Rightarrow> (None, s)
         | (Some (JSONDecodeError e), s) \<Rightarrow> (Some (SysExit 1), say (ErrInvalidJson e) s)
         | (Some (TypeError t), s) \<Rightarrow> (Some (SysExit 1), say (ErrBadFormat (TypeError t)) s)
         | (Some (ValueError e), s) \<Rightarrow> (Some (SysExit 1), say (ErrBadFormat (ValueError e)) s)
         | (Some (UnicodeEncodeError t), s) \<Rightarrow>
             (Some (SysExit 1), say (ErrBadFormat (UnicodeEncodeError t)) s)
         | (Some e, s) \<Rightarrow> (Some (Uncaught e), s))
      else (None, initial_state))"

text \<open>Part 2, the standalone pair.\<close>

definition load_standalone :: "env \<Rightarrow> state \<Rightarrow> state" where
  "load_standalone E s =
     (let tok = SKLAND_TOKEN E;
          nick = remove_marker (strip (SKLAND_NICKNAME E))
      in if tok \<noteq> [] then
           (let s1 = say DetectedStandalone s in
            if \<not> py_in (JStr tok) (seen_tokens s1) then
              (let final_nickname = (if nick \<noteq> [] then nick else STANDALONE_NICKNAME) in
               say LoadedStandalone
                 (s1\<lparr>final_accounts :=
                        final_accounts s1 @ [\<lparr>nickname = JStr final_nickname, token = JStr tok\<rparr>],
                      seen_tokens := insert (JStr tok) (seen_tokens s1)\<rparr>))
            else say WarnStandaloneDuplicate s1)
         else s)"

text \<open>Parts 1 and 2 together: the state the final check looks at.\<close>

definition merge_sources :: "platform \<Rightarrow> env \<Rightarrow> abort option \<times> state" where
  "merge_sources P E =
     (case load_bulk P E of
        (Some a, s) \<Rightarrow> (Some a, s)
      | (None, s) \<Rightarrow> (None, load_standalone E s))"

text \<open>Part 3, the final check. The result is what is returned, with what was printed.\<close>

definition load_and_merge_accounts :: "platform \<Rightarrow> env \<Rightarrow> (abort + account list) \<times> msg list" where
  "load_and_merge_accounts P E =
     (case merge_sources P E of
        (Some a, s) \<Rightarrow> (Inl a, printed s)
      | (None, s) \<Rightarrow>
          (if final_accounts s = [] then (Inl (SysExit 1), printed s @ [ErrNoAccounts])
           else (Inr (final_accounts s), printed s)))"

section \<open>main\<close>

fun is_str :: "json \<Rightarrow> bool" where
  "is_str (JStr s) = True"
| "is_str v = False"

text \<open>
  \<open>accounts.sort(key=lambda x: x.get('nickname', ''))\<close>: every account has the key. On
  string nicknames Python's sort is the stable sort by code points; on anything else its
  outcome (a \<open>TypeError\<close> for keys that do not compare, or a sorted list) is the library's.
\<close>

definition sort_accounts :: "platform \<Rightarrow> account list \<Rightarrow> exn + account list" where
  "sort_accounts P accounts =
     (if list_all (\<lambda>a. is_str (nickname a)) accounts
      then Inr (sort_key (\<lambda>a. str_of (nickname a)) accounts)
      else list_sort P accounts)"

text \<open>What the run did to \<open>config.yaml\<close>.\<close>

datatype file_effect = Unchanged | Replaced config | Damaged

record outcome =
  exit_status :: nat
  config_yaml :: file_effect
  console :: "msg list"

text \<open>
  An exception that nothing catches ends the process with status 1, as \<open>sys.exit(1)\<close>
  does. The file is opened only after the accounts were loaded and sorted.
\<close>

definition main :: "platform \<Rightarrow> env \<Rightarrow> outcome" where
  "main P E =
     (case load_and_merge_accounts P E of
        (Inl (SysExit n), out) \<Rightarrow> \<lparr>exit_status = n, config_yaml = Unchanged, console = out\<rparr>
      | (Inl (Uncaught e), out) \<Rightarrow> \<lparr>exit_status = 1, config_yaml = Unchanged, console = out\<rparr>
      | (Inr accounts, out) \<Rightarrow>
          (case sort_accounts P accounts of
             Inl e \<Rightarrow> \<lparr>exit_status = 1, config_yaml = Unchanged, console = out\<rparr>
           | Inr sorted_accounts \<Rightarrow>
               (let cfg = \<lparr>log_level = ascii ''info'', users = sorted_accounts\<rparr> in
                case file_write P cfg of
                  WriteOk \<Rightarrow>
                    \<lparr>exit_status = 0, config_yaml = Replaced cfg,
                     console = out @ [AllMerged (length sorted_accounts)]\<rparr>
                | OpenFailed e \<Rightarrow>
                    \<lparr>exit_status = 1, config_yaml = Unchanged,
                     console = out @ [ErrWriteFailed e]\<rparr>
                | DumpFailed e \<Rightarrow>
                    \<lparr>exit_status = 1, config_yaml = Damaged,
                     console = out @ [ErrWriteFailed e]\<rparr>)))"

section \<open>Vocabulary of the properties\<close>

text \<open>
  The pairs (raw nickname, token) the loop reads from the items of a list whose format
  was detected; on such a list \<open>entry\<close> never fails.
\<close>

definition entries :: "fmt \<Rightarrow> json list \<Rightarrow> (json \<times> json) list" where
  "entries f items =
     map (\<lambda>item. case entry f item of Inr e \<Rightarrow> e | Inl x \<Rightarrow> (JNull, JNull)) items"

text \<open>An entry lacks a nickname when its raw nickname is false in Python's sense.\<close>

definition nameless :: "json \<times> json \<Rightarrow> bool" where
  "nameless e = (\<not> truthy (fst e))"

text \<open>
  The rank of position \<open>i\<close> among the entries that lack a nickname, counted from 1
  over all of them, whether their token is then accepted or not.
\<close>

definition unnamed_rank :: "(json \<times> json) list \<Rightarrow> nat \<Rightarrow> nat" where
  "unnamed_rank es i = length (filter nameless (take (Suc i) es))"

definition assigned_nickname :: "(json \<times> json) list \<Rightarrow> nat \<Rightarrow> json" where
  "assigned_nickname es i =
     (if nameless (es ! i) then JStr (default_nickname (unnamed_rank es i)) else fst (es ! i))"

text \<open>
  Position \<open>i\<close> is accepted when its token is true in Python's sense and equal to no
  earlier token.
\<close>

definition accepted :: "(json \<times> json) list \<Rightarrow> nat \<Rightarrow> bool" where
  "accepted es i =
     (truthy (snd (es ! i)) \<and> \<not> list_ex (\<lambda>e. py_eq (snd (es ! i)) (snd e)) (take i es))"


definition account_of :: "(json \<times> json) list \<Rightarrow> nat \<Rightarrow> account" where
  "account_of es i = \<lparr>nickname = assigned_nickname es i, token = snd (es ! i)\<rparr>"

definition accepted_accounts :: "(json \<times> json) list \<Rightarrow> account list" where
  "accepted_accounts es = map (account_of es) (filter (accepted es) [0..<length es])"

text \<open>The invariant that ties the set of seen tokens to the accepted accounts.\<close>

definition tokens_ok :: "state \<Rightarrow> bool" where
  "tokens_ok s =
     (seen_tokens s = set (map token (final_accounts s)) \<and>
      distinct (map token (final_accounts s)) \<and>
      list_all (\<lambda>a. truthy (token a)) (final_accounts s))"

text \<open>
  The state in which the loop over a list of a detected format starts: nothing
  accepted, nothing seen, the counter at zero.
\<close>

definition bulk_start :: "fmt \<Rightarrow> state" where
  "bulk_start f = say (Recognised f) (say DetectedJson initial_state)"

section \<open>Worked examples: fixed inputs\<close>

text \<open>
  A platform whose parser returns \<open>r\<close> whatever the text, whose sort of non-string
  keys leaves the list as it is and whose write succeeds; environments with the bulk
  variable alone and with all three variables; items and accounts of plain strings.
\<close>

definition platform_of :: "exn + json \<Rightarrow> platform" where
  "platform_of r = \<lparr>json_loads = (\<lambda>s. r), list_sort = Inr, file_write = (\<lambda>c. WriteOk)\<rparr>"

definition bulk_only :: "str \<Rightarrow> env" where
  "bulk_only j = \<lparr>SKLAND_ACCOUNTS_JSON = j, SKLAND_TOKEN = [], SKLAND_NICKNAME = []\<rparr>"

definition standalone :: "str \<Rightarrow> str \<Rightarrow> str \<Rightarrow> env" where
  "standalone j t n = \<lparr>SKLAND_ACCOUNTS_JSON = j, SKLAND_TOKEN = t, SKLAND_NICKNAME = n\<rparr>"

definition obj1 :: "string \<Rightarrow> string \<Rightarrow> json" where
  "obj1 k v = JObj [(ascii k, JStr (ascii v))]"

definition old_item :: "string \<Rightarrow> string \<Rightarrow> json" where
  "old_item n t = JObj [(ascii ''nickname'', JStr (ascii n)), (ascii ''token'', JStr (ascii t))]"

definition acct :: "string \<Rightarrow> string \<Rightarrow> account" where
  "acct n t = \<lparr>nickname = JStr (ascii n), token = JStr (ascii t)\<rparr>"

section \<open>The marker\<close>

lemma MARKER_length: "length MARKER = 4"
  by (simp add: MARKER_def ascii_def)

lemma endswith_append: "endswith (x @ m) m"
  by (simp add: endswith_def)

text \<open>Trimming removes the whitespace around a core and nothing of the core.\<close>

lemma strip_surrounded:
  assumes l: "list_all isspace l" and r: "list_all isspace r"
    and c: "core \<noteq> [] \<longrightarrow> \<not> isspace (hd core) \<and> \<not> isspace (last core)"
  shows "strip (l @ core @ r) = core"
proof (cases core)
  case Nil
  from l r Nil have "\<forall>x\<in>set (l @ core @ r). isspace x"
    by (auto simp: list_all_iff)
  then have d: "dropWhile isspace (l @ core @ r) = []"
    by (simp only: dropWhile_eq_Nil_conv)
  show ?thesis
    unfolding strip_def d using Nil by simp
next
  case (Cons a cs)
  with c have h: "\<not> isspace (hd core)" and t: "\<not> isspace (last core)" and ne: "core \<noteq> []"
    by simp_all
  from l have "dropWhile isspace (l @ core @ r) = dropWhile isspace (core @ r)"
    by (intro dropWhile_append2) (simp add: list_all_iff)
  also from h Cons have "\<dots> = core @ r" by simp
  finally have d1: "dropWhile isspace (l @ core @ r) = core @ r" .
  from ne have rc: "rev core = last core # rev (butlast core)"
    by (metis append_butlast_last_id rev.simps(2) rev_append rev_singleton_conv append_Cons append_Nil rev_rev_ident)
  from r have "dropWhile isspace (rev r @ rev core) = dropWhile isspace (rev core)"
    by (intro dropWhile_append2) (simp add: list_all_iff)
  also from t have "\<dots> = rev core" by (simp add: rc)
  finally have d2: "dropWhile isspace (rev r @ rev core) = rev core" .
  show ?thesis by (simp add: strip_def d1 d2)
qed

section \<open>Equality of tokens\<close>

lemma py_eq_refl [simp]: "py_eq x x"
  by (cases x) (simp_all add: py_eq_def)

lemma py_eq_sym: "py_eq x y \<Longrightarrow> py_eq y x"
  by (auto simp: py_eq_def split: option.splits)

lemma py_eq_trans: "py_eq x y \<Longrightarrow> py_eq y z \<Longrightarrow> py_eq x z"
  by (auto simp: py_eq_def split: option.splits)

lemma py_eq_truthy: "py_eq x y \<Longrightarrow> truthy x = truthy y"
  by (cases x; cases y) (auto simp: py_eq_def split: if_splits)

lemma py_eq_JStr [simp]: "py_eq (JStr a) y = (y = JStr a)"
  by (cases y) (auto simp: py_eq_def)

lemma py_in_JStr [simp]: "py_in (JStr a) S = (JStr a \<in> S)"
  by (auto simp: py_in_def)

lemma py_in_mem: "x \<in> S \<Longrightarrow> py_in x S"
  unfolding py_in_def using py_eq_refl by blast

lemma py_in_insert: "py_in x (insert t S) = (py_eq x t \<or> py_in x S)"
  by (auto simp: py_in_def)



section \<open>The loop, pass by pass\<close>

lemma bulk_loop_append:
  "bulk_loop f (xs @ ys) s =
     (case bulk_loop f xs s of (Some e, s') \<Rightarrow> (Some e, s') | (None, s') \<Rightarrow> bulk_loop f ys s')"
  by (induction xs arbitrary: s) (auto split: prod.splits option.splits)

lemma bulk_loop_snoc_None:
  "bulk_loop f (xs @ [x]) s = (None, s') \<Longrightarrow>
     \<exists>s1. bulk_loop f xs s = (None, s1) \<and> process_item f x s1 = (None, s')"
  by (auto simp: bulk_loop_append split: prod.splits option.splits)

text \<open>What one pass does when it does not raise.\<close>

lemma process_item_None:
  assumes "entry f x = Inr (n, t)" and "process_item f x s1 = (None, s)"
  shows "unnamed_account_counter s = unnamed_account_counter s1 + (if truthy n then 0 else 1)"
    and "truthy t \<and> \<not> py_in t (seen_tokens s1) \<Longrightarrow>
           final_accounts s = final_accounts s1 @
             [\<lparr>nickname = (if truthy n then n
                            else JStr (default_nickname (unnamed_account_counter s1 + 1))),
               token = t\<rparr>] \<and>
           seen_tokens s = insert t (seen_tokens s1)"
    and "\<not> (truthy t \<and> \<not> py_in t (seen_tokens s1)) \<Longrightarrow>
           final_accounts s = final_accounts s1 \<and> seen_tokens s = seen_tokens s1"
  using assms
  by (auto simp: process_item_def accept_or_skip_def get_next_default_nickname_def say_def
      Let_def split: if_splits)




section \<open>Ranks and accepted positions, one entry more\<close>

lemma unnamed_rank_snoc_lt: "i < length es \<Longrightarrow> unnamed_rank (es @ [e]) i = unnamed_rank es i"
  by (simp add: unnamed_rank_def)

lemma unnamed_rank_snoc_last:
  "unnamed_rank (es @ [e]) (length es) = length (filter nameless es) + (if nameless e then 1 else 0)"
  by (simp add: unnamed_rank_def)

lemma accepted_snoc_lt: "i < length es \<Longrightarrow> accepted (es @ [e]) i = accepted es i"
  by (simp add: accepted_def nth_append)

lemma accepted_snoc_last:
  "accepted (es @ [e]) (length es) =
     (truthy (snd e) \<and> \<not> list_ex (\<lambda>u. py_eq (snd e) (snd u)) es)"
  by (simp add: accepted_def)

lemma account_of_snoc_lt: "i < length es \<Longrightarrow> account_of (es @ [e]) i = account_of es i"
  by (simp add: account_of_def assigned_nickname_def nth_append unnamed_rank_snoc_lt)

lemma account_of_snoc_last:
  "account_of (es @ [e]) (length es) =
     \<lparr>nickname = (if nameless e then JStr (default_nickname (length (filter nameless es) + 1))
                    else fst e),
      token = snd e\<rparr>"
  by (simp add: account_of_def assigned_nickname_def unnamed_rank_snoc_last)

lemma accepted_accounts_snoc:
  "accepted_accounts (es @ [e]) =
     accepted_accounts es @
       (if accepted (es @ [e]) (length es) then [account_of (es @ [e]) (length es)] else [])"
proof -
  have f: "filter (accepted (es @ [e])) [0..<length es] = filter (accepted es) [0..<length es]"
    by (rule filter_cong) (simp_all add: accepted_snoc_lt)
  have m: "map (account_of (es @ [e])) (filter (accepted es) [0..<length es]) =
           map (account_of es) (filter (accepted es) [0..<length es])"
    by (rule map_cong) (simp_all add: account_of_snoc_lt)
  show ?thesis
    by (simp add: accepted_accounts_def f m)
qed

lemma unnamed_ranks:
  "map (unnamed_rank es) (filter (\<lambda>i. nameless (es ! i)) [0..<length es]) =
     [1..<Suc (length (filter nameless es))]"
proof (induction es rule: rev_induct)
  case Nil
  then show ?case by simp
next
  case (snoc e es)
  have f: "filter (\<lambda>i. nameless ((es @ [e]) ! i)) [0..<length es] =
           filter (\<lambda>i. nameless (es ! i)) [0..<length es]"
    by (rule filter_cong) (simp_all add: nth_append)
  have m: "map (unnamed_rank (es @ [e])) (filter (\<lambda>i. nameless (es ! i)) [0..<length es]) =
           map (unnamed_rank es) (filter (\<lambda>i. nameless (es ! i)) [0..<length es])"
    by (rule map_cong) (simp_all add: unnamed_rank_snoc_lt)
  show ?case
    using snoc.IH by (simp add: f m unnamed_rank_snoc_last)
qed



section \<open>What the loop computes\<close>

lemma bulk_loop_char:
  assumes s0: "final_accounts s0 = []" "seen_tokens s0 = {}" "unnamed_account_counter s0 = 0"
  shows "map (entry f) items = map Inr es \<Longrightarrow> bulk_loop f items s0 = (None, s) \<Longrightarrow>
     unnamed_account_counter s = length (filter nameless es) \<and>
     final_accounts s = accepted_accounts es \<and>
     (\<forall>x. py_in x (seen_tokens s) = list_ex (\<lambda>u. truthy (snd u) \<and> py_eq x (snd u)) es)"
proof (induction items arbitrary: es s rule: rev_induct)
  case Nil
  then show ?case
    using s0 by (simp add: accepted_accounts_def py_in_def)
next
  case (snoc x items)
  from snoc.prems(1) obtain es0 e where es: "es = es0 @ [e]"
    and m0: "map (entry f) items = map Inr es0" and ex: "entry f x = Inr e"
    by (cases es rule: rev_cases) auto
  from snoc.prems(2) obtain s1 where l1: "bulk_loop f items s0 = (None, s1)"
    and p: "process_item f x s1 = (None, s)"
    by (blast dest: bulk_loop_snoc_None)
  from snoc.IH [OF m0 l1]
  have c1: "unnamed_account_counter s1 = length (filter nameless es0)"
    and a1: "final_accounts s1 = accepted_accounts es0"
    and i1: "\<And>x. py_in x (seen_tokens s1) = list_ex (\<lambda>u. truthy (snd u) \<and> py_eq x (snd u)) es0"
    by simp_all
  obtain n t where e: "e = (n, t)" by (cases e)
  note pi = process_item_None [OF ex [unfolded e] p]
  have acc: "accepted (es0 @ [e]) (length es0) = (truthy t \<and> \<not> py_in t (seen_tokens s1))"
    unfolding accepted_snoc_last i1 e
    by (auto simp: list_ex_iff dest: py_eq_truthy)
  have cnt: "unnamed_account_counter s = length (filter nameless es)"
    using pi(1) c1 by (simp add: es e nameless_def)
  have fin: "final_accounts s = accepted_accounts es"
  proof (cases "truthy t \<and> \<not> py_in t (seen_tokens s1)")
    case True
    with pi(2) acc show ?thesis
      unfolding es accepted_accounts_snoc
      by (simp add: a1 c1 account_of_snoc_last e nameless_def)
  next
    case False
    with pi(3) acc show ?thesis
      unfolding es accepted_accounts_snoc
      by (simp add: a1)
  qed
  have seen: "py_in y (seen_tokens s) = list_ex (\<lambda>u. truthy (snd u) \<and> py_eq y (snd u)) es" for y
  proof (cases "truthy t \<and> \<not> py_in t (seen_tokens s1)")
    case True
    with pi(2) show ?thesis
      by (auto simp: es e py_in_insert i1)
  next
    case False
    note F = this
    show ?thesis
    proof (cases "truthy t")
      case True
      with F have "py_in t (seen_tokens s1)" by simp
      then obtain u where u: "u \<in> set es0" "truthy (snd u)" "py_eq t (snd u)"
        by (auto simp: i1 list_ex_iff)
      have "py_eq y t \<Longrightarrow> list_ex (\<lambda>u. truthy (snd u) \<and> py_eq y (snd u)) es0"
        using u by (auto simp: list_ex_iff intro: py_eq_trans)
      with pi(3) F show ?thesis
        by (auto simp: es e i1)
    next
      case False
      with pi(3) F show ?thesis
        by (auto simp: es e i1)
    qed
  qed
  from cnt fin seen show ?case by blast
qed


section \<open>The invariant of the accepted tokens\<close>

lemma tokens_ok_say [simp]: "tokens_ok (say m s) = tokens_ok s"
  by (simp add: tokens_ok_def say_def)

lemma tokens_ok_initial [simp]: "tokens_ok initial_state"
  by (simp add: tokens_ok_def initial_state_def)

lemma accept_or_skip_ok:
  "tokens_ok s \<Longrightarrow> accept_or_skip f n t s = (r, s') \<Longrightarrow> tokens_ok s'"
proof -
  assume ok: "tokens_ok s" and a: "accept_or_skip f n t s = (r, s')"
  have fresh: "\<not> py_in t (seen_tokens s) \<Longrightarrow> t \<notin> set (map token (final_accounts s))"
    using ok py_in_mem [of t "seen_tokens s"] by (auto simp: tokens_ok_def)
  show ?thesis
    using ok a fresh
    by (auto simp: accept_or_skip_def tokens_ok_def say_def split: if_splits)
qed

lemma get_next_ok:
  "tokens_ok s \<Longrightarrow> get_next_default_nickname s = (n, s') \<Longrightarrow> tokens_ok s'"
  by (auto simp: get_next_default_nickname_def tokens_ok_def Let_def)

lemma process_item_ok:
  "tokens_ok s \<Longrightarrow> process_item f x s = (r, s') \<Longrightarrow> tokens_ok s'"
  by (auto simp: process_item_def split: sum.splits prod.splits if_splits
      dest: accept_or_skip_ok get_next_ok)

lemma bulk_loop_ok:
  "tokens_ok s \<Longrightarrow> bulk_loop f items s = (r, s') \<Longrightarrow> tokens_ok s'"
proof (induction items arbitrary: s)
  case Nil
  then show ?case by simp
next
  case (Cons x items)
  obtain r1 s1 where p: "process_item f x s = (r1, s1)" by (cases "process_item f x s")
  with Cons.prems(1) have ok1: "tokens_ok s1" by (blast dest: process_item_ok)
  show ?case
  proof (cases r1)
    case None
    with Cons.prems(2) p have "bulk_loop f items s1 = (r, s')" by simp
    with Cons.IH ok1 show ?thesis by blast
  next
    case (Some e)
    with Cons.prems(2) p ok1 show ?thesis by simp
  qed
qed

lemma process_raw_data_ok:
  "tokens_ok s \<Longrightarrow> process_raw_data v s = (r, s') \<Longrightarrow> tokens_ok s'"
  by (auto simp: process_raw_data_def split: json.splits option.splits prod.splits
      dest!: bulk_loop_ok [rotated])

lemma try_bulk_ok:
  "tokens_ok s \<Longrightarrow> try_bulk P j s = (r, s') \<Longrightarrow> tokens_ok s'"
  by (auto simp: try_bulk_def split: sum.splits dest: process_raw_data_ok)

lemma load_bulk_ok: "load_bulk P E = (r, s) \<Longrightarrow> tokens_ok s"
  by (auto simp: load_bulk_def Let_def split: if_splits prod.splits option.splits exn.splits
      dest!: try_bulk_ok [rotated])

lemma load_standalone_ok: "tokens_ok s \<Longrightarrow> tokens_ok (load_standalone E s)"
  by (auto simp: load_standalone_def Let_def tokens_ok_def say_def)

lemma merge_sources_ok: "merge_sources P E = (r, s) \<Longrightarrow> tokens_ok s"
  by (auto simp: merge_sources_def split: prod.splits option.splits
      dest: load_bulk_ok load_standalone_ok)

section \<open>Lists of a detected format\<close>

lemma entry_new_item: "is_new_item x \<Longrightarrow> \<exists>e. entry New x = Inr e"
  by (cases x) (auto simp: length_Suc_conv)

lemma entry_old_item: "is_old_item x \<Longrightarrow> \<exists>e. entry Old x = Inr e"
  by (cases x) auto

lemma detect_format_entry:
  "detect_format items = Some f \<Longrightarrow> x \<in> set items \<Longrightarrow> \<exists>e. entry f x = Inr e"
proof (cases f)
  case New
  assume "detect_format items = Some f" "x \<in> set items"
  with New have "is_new_item x"
    by (auto simp: detect_format_def list_all_iff split: if_splits)
  with New entry_new_item [of x] show ?thesis by auto
next
  case Old
  assume "detect_format items = Some f" "x \<in> set items"
  with Old have "is_old_item x"
    by (auto simp: detect_format_def list_all_iff split: if_splits)
  with Old entry_old_item [of x] show ?thesis by auto
qed

lemma detect_format_entries:
  assumes "detect_format items = Some f"
  shows "map (entry f) items = map Inr (entries f items)"
  unfolding entries_def map_map
  by (rule map_cong) (use detect_format_entry [OF assms] in force)+

lemma bulk_start_fresh:
  "final_accounts (bulk_start f) = []" "seen_tokens (bulk_start f) = {}"
  "unnamed_account_counter (bulk_start f) = 0"
  by (simp_all add: bulk_start_def say_def initial_state_def)


lemma load_bulk_None_detected:
  assumes "SKLAND_ACCOUNTS_JSON E \<noteq> []"
    and "json_loads P (SKLAND_ACCOUNTS_JSON E) = Inr (JArr items)"
    and "detect_format items = Some f"
    and "load_bulk P E = (None, s)"
  shows "\<exists>s1. bulk_loop f items (bulk_start f) = (None, s1) \<and>
              s = say (LoadedFromJson (length (final_accounts s1))) s1"
proof -
  obtain r s1 where b: "bulk_loop f items (bulk_start f) = (r, s1)"
    by (cases "bulk_loop f items (bulk_start f)")
  show ?thesis
  proof (cases r)
    case None
    with b assms show ?thesis
      by (simp add: load_bulk_def try_bulk_def process_raw_data_def bulk_start_def)
  next
    case (Some e)
    with b assms have False
      by (cases e)
        (simp_all add: load_bulk_def try_bulk_def process_raw_data_def bulk_start_def)
    then show ?thesis ..
  qed
qed



section \<open>The steps of main\<close>

lemma sort_accounts_str:
  "list_all (\<lambda>a. is_str (nickname a)) accounts \<Longrightarrow>
     sort_accounts P accounts = Inr (sort_key (\<lambda>a. str_of (nickname a)) accounts)"
  by (simp add: sort_accounts_def)

lemma main_Replaced:
  assumes "load_and_merge_accounts P E = (Inr accounts, out)"
    and "config_yaml (main P E) = Replaced cfg"
  shows "\<exists>sorted_accounts. sort_accounts P accounts = Inr sorted_accounts \<and>
           cfg = \<lparr>log_level = ascii ''info'', users = sorted_accounts\<rparr>"
  using assms
  by (auto simp: main_def Let_def split: sum.splits write_outcome.splits)

lemma main_Replaced_load:
  assumes "config_yaml (main P E) = Replaced cfg"
  shows "\<exists>accounts out. load_and_merge_accounts P E = (Inr accounts, out)"
proof (cases "load_and_merge_accounts P E")
  case (Pair r out)
  show ?thesis
  proof (cases r)
    case (Inl a)
    with Pair assms show ?thesis
      by (cases a) (simp_all add: main_def)
  next
    case (Inr accounts)
    with Pair show ?thesis by simp
  qed
qed

lemma load_and_merge_accounts_Inr:
  assumes "load_and_merge_accounts P E = (Inr accounts, out)"
  shows "\<exists>s. merge_sources P E = (None, s) \<and> accounts = final_accounts s \<and> tokens_ok s"
proof (cases "merge_sources P E")
  case (Pair r s)
  with assms have "r = None" "accounts = final_accounts s"
    by (auto simp: load_and_merge_accounts_def split: option.splits if_splits)
  with Pair merge_sources_ok [OF Pair] show ?thesis by simp
qed

section \<open>Worked examples: evaluation\<close>

lemmas run_simps = load_and_merge_accounts_def merge_sources_def load_bulk_def try_bulk_def
  process_raw_data_def detect_format_def process_item_def accept_or_skip_def
  get_next_default_nickname_def say_def initial_state_def load_standalone_def Let_def
  platform_of_def bulk_only_def obj1_def entries_def encodable_def is_surrogate_def


lemma example_sort_load:
  \<open>load_and_merge_accounts
     (platform_of (Inr (JArr [obj1 ''b'' ''t1'', obj1 ''a'' ''t2'', obj1 ''a'' ''t3''])))
     (bulk_only (ascii ''[{"b": "t1"}, {"a": "t2"}, {"a": "t3"}]'')) =
   (Inr [acct ''b'' ''t1'', acct ''a'' ''t2'', acct ''a'' ''t3''],
    [Start, DetectedJson, Recognised New, LoadedFromJson 3])\<close>
  by (simp add: run_simps acct_def ascii_def)

lemma example_sort_main:
  \<open>config_yaml (main
     (platform_of (Inr (JArr [obj1 ''b'' ''t1'', obj1 ''a'' ''t2'', obj1 ''a'' ''t3''])))
     (bulk_only (ascii ''[{"b": "t1"}, {"a": "t2"}, {"a": "t3"}]''))) =
   Replaced \<lparr>log_level = ascii ''info'',
             users = [acct ''a'' ''t2'', acct ''a'' ''t3'', acct ''b'' ''t1'']\<rparr>\<close>
  unfolding main_def example_sort_load
  by (simp add: sort_accounts_def acct_def platform_of_def ascii_def)

section \<open>The claims\<close>

subsection \<open>C1\<close>

text \<open>
  Claim C1, as the code has it. The nickname of an entry is settled before its token is
  tested, so the counter goes up once for every bulk entry that lacks a nickname, whether
  the entry is then accepted or skipped. For a bulk list of a detected format whose
  processing raises nothing: the counter ends at the number of entries that lack a
  nickname; the accepted accounts are the entries at the accepted positions, in order;
  an entry that lacks a nickname gets the default nickname numbered with its rank among
  all entries that lack one; and these ranks, read in list order, are 1, 2, 3, ... without
  a gap. The numbers of the accepted accounts are thus strictly increasing, and contiguous
  from 1 only when no entry that lacks a nickname is skipped.
\<close>

theorem bulk_nickname_numbering:
  assumes "SKLAND_ACCOUNTS_JSON E \<noteq> []"
    and "json_loads P (SKLAND_ACCOUNTS_JSON E) = Inr (JArr items)"
    and "detect_format items = Some f"
    and "load_bulk P E = (None, s)"
    and "es = entries f items"
  shows "unnamed_account_counter s = length (filter nameless es) \<and>
         final_accounts s = map (account_of es) (filter (accepted es) [0..<length es]) \<and>
         (\<forall>i<length es. nameless (es ! i) \<longrightarrow>
            nickname (account_of es i) = JStr (default_nickname (unnamed_rank es i))) \<and>
         map (unnamed_rank es) (filter (\<lambda>i. nameless (es ! i)) [0..<length es]) =
           [1..<Suc (length (filter nameless es))]"
proof -
  from load_bulk_None_detected [OF assms(1-4)] obtain s1
    where b: "bulk_loop f items (bulk_start f) = (None, s1)"
      and s: "s = say (LoadedFromJson (length (final_accounts s1))) s1"
    by blast
  from bulk_loop_char [OF bulk_start_fresh detect_format_entries [OF assms(3)] b]
  have "unnamed_account_counter s = length (filter nameless es)"
    and "final_accounts s = map (account_of es) (filter (accepted es) [0..<length es])"
    by (simp_all add: s say_def assms(5) accepted_accounts_def)
  moreover have "\<forall>i<length es. nameless (es ! i) \<longrightarrow>
            nickname (account_of es i) = JStr (default_nickname (unnamed_rank es i))"
    by (simp add: account_of_def assigned_nickname_def)
  ultimately show ?thesis
    using unnamed_ranks [of es] by blast
qed

theorem bulk_nickname_numbering_witness:
  \<open>load_bulk (platform_of (Inr (JArr [JObj [([], JStr [])], JObj [([], JStr (ascii ''t''))]])))
     (bulk_only (ascii ''[{"": ""}, {"": "t"}]'')) =
   (None, \<lparr>final_accounts = [\<lparr>nickname = JStr (default_nickname 2), token = JStr (ascii ''t'')\<rparr>],
           seen_tokens = {JStr (ascii ''t'')}, unnamed_account_counter = 2,
           printed = [Start, DetectedJson, Recognised New, WarnEmptyToken New, LoadedFromJson 1]\<rparr>) \<and>
   map (unnamed_rank [(JStr [], JStr []), (JStr [], JStr (ascii ''t''))]) [0, 1] = [1, 2] \<and>
   filter (accepted [(JStr [], JStr []), (JStr [], JStr (ascii ''t''))]) [0, 1] = [1]\<close>
proof -
  let ?items = "[JObj [([], JStr [])], JObj [([], JStr (ascii ''t''))]]"
  let ?es = "[(JStr [], JStr []), (JStr [], JStr (ascii ''t''))]"
  let ?P = "platform_of (Inr (JArr ?items))"
  let ?E = \<open>bulk_only (ascii ''[{"": ""}, {"": "t"}]'')\<close>
  let ?s = "\<lparr>final_accounts = [\<lparr>nickname = JStr (default_nickname 2), token = JStr (ascii ''t'')\<rparr>],
           seen_tokens = {JStr (ascii ''t'')}, unnamed_account_counter = 2,
           printed = [Start, DetectedJson, Recognised New, WarnEmptyToken New, LoadedFromJson 1]\<rparr>"
  have h1: "SKLAND_ACCOUNTS_JSON ?E \<noteq> []"
    by (simp add: bulk_only_def ascii_def)
  have h2: "json_loads ?P (SKLAND_ACCOUNTS_JSON ?E) = Inr (JArr ?items)"
    by (simp add: platform_of_def)
  have h3: "detect_format ?items = Some New"
    by (simp add: detect_format_def)
  have h4: "load_bulk ?P ?E = (None, ?s)"
    by (simp add: run_simps ascii_def numeral_2_eq_2)
  have h5: "?es = entries New ?items"
    by (simp add: entries_def)
  have u: "[0..<length ?es] = [0, 1]"
    by (simp add: upt_rec)
  have a: "filter (accepted ?es) [0, 1] = [1]"
    by (simp add: accepted_def ascii_def)
  have n: "filter (\<lambda>i. nameless (?es ! i)) [0, 1] = [0, 1]"
    by (simp add: nameless_def)
  from bulk_nickname_numbering [OF h1 h2 h3 h4 h5]
  have "map (unnamed_rank ?es) (filter (\<lambda>i. nameless (?es ! i)) [0..<length ?es]) =
           [1..<Suc (length (filter nameless ?es))]"
    by blast
  then have "map (unnamed_rank ?es) [0, 1] = [1, 2]"
    unfolding u n by (simp add: nameless_def upt_rec)
  with h4 a show ?thesis by simp
qed

text \<open>
  The claim as stated fails: in the compact list of two entries without a nickname, the
  first with an empty token, the skipped first entry takes number 1 and the only accepted
  account is numbered 2.
\<close>

theorem skipped_entry_consumes_number:
  \<open>load_and_merge_accounts
     (platform_of (Inr (JArr [JObj [([], JStr [])], JObj [([], JStr (ascii ''t''))]])))
     (bulk_only (ascii ''[{"": ""}, {"": "t"}]'')) =
   (Inr [\<lparr>nickname = JStr (DEFAULT_NICKNAME_PREFIX @ ascii ''-2''), token = JStr (ascii ''t'')\<rparr>],
    [Start, DetectedJson, Recognised New, WarnEmptyToken New, LoadedFromJson 1])\<close>
  by (simp add: run_simps default_nickname_def str_of_nat.simps ascii_def)

subsection \<open>C2\<close>




subsection \<open>C3\<close>

text \<open>
  Claim C3. When the bulk source was processed and the standalone token equals the token
  of an account accepted from it, the standalone pair is skipped with a warning: the
  accounts returned are those of the bulk source, and no token occurs twice among them.
\<close>

theorem standalone_duplicate_skipped:
  assumes "load_bulk P E = (None, s)"
    and "JStr (SKLAND_TOKEN E) \<in> set (map token (final_accounts s))"
  shows "load_and_merge_accounts P E =
           (Inr (final_accounts s), printed s @ [DetectedStandalone, WarnStandaloneDuplicate]) \<and>
         distinct (map token (final_accounts s))"
proof -
  from load_bulk_ok [OF assms(1)] have ok: "tokens_ok s" .
  with assms(2) have seen: "JStr (SKLAND_TOKEN E) \<in> seen_tokens s"
    by (simp add: tokens_ok_def)
  from assms(2) obtain a where "a \<in> set (final_accounts s)" "token a = JStr (SKLAND_TOKEN E)"
    by auto
  with ok have "truthy (JStr (SKLAND_TOKEN E))"
    by (auto simp: tokens_ok_def list_all_iff)
  then have ne: "SKLAND_TOKEN E \<noteq> []" by simp
  have ls: "load_standalone E s = say WarnStandaloneDuplicate (say DetectedStandalone s)"
    using seen ne by (simp add: load_standalone_def say_def)
  from assms(2) have nonempty: "final_accounts s \<noteq> []" by auto
  have "load_and_merge_accounts P E =
           (Inr (final_accounts s), printed s @ [DetectedStandalone, WarnStandaloneDuplicate])"
    using nonempty by (simp add: load_and_merge_accounts_def merge_sources_def assms(1) ls say_def)
  with ok show ?thesis by (simp add: tokens_ok_def)
qed

theorem standalone_duplicate_skipped_witness:
  \<open>load_and_merge_accounts
     (platform_of (Inr (JArr [old_item ''a'' ''t1''])))
     (standalone (ascii ''[{"nickname": "a", "token": "t1"}]'') (ascii ''t1'') []) =
   (Inr [\<lparr>nickname = JStr (ascii ''a''), token = JStr (ascii ''t1'')\<rparr>],
    [Start, DetectedJson, Recognised Old, LoadedFromJson 1, DetectedStandalone,
     WarnStandaloneDuplicate])\<close>
proof -
  let ?P = "platform_of (Inr (JArr [old_item ''a'' ''t1'']))"
  let ?E = \<open>standalone (ascii ''[{"nickname": "a", "token": "t1"}]'') (ascii ''t1'') []\<close>
  let ?s = "\<lparr>final_accounts = [\<lparr>nickname = JStr (ascii ''a''), token = JStr (ascii ''t1'')\<rparr>],
           seen_tokens = {JStr (ascii ''t1'')}, unnamed_account_counter = 0,
           printed = [Start, DetectedJson, Recognised Old, LoadedFromJson 1]\<rparr>"
  have h1: "load_bulk ?P ?E = (None, ?s)"
    by (simp add: run_simps standalone_def old_item_def dict_get_def ascii_def)
  have h2: "JStr (SKLAND_TOKEN ?E) \<in> set (map token (final_accounts ?s))"
    by (simp add: standalone_def)
  from standalone_duplicate_skipped [OF h1 h2] show ?thesis by simp
qed

subsection \<open>C4\<close>

text \<open>
  Claim C4. When both sources were processed and no account was accepted, the run prints
  the error, ends with exit status 1 and leaves \<open>config.yaml\<close> as it was.
\<close>

theorem no_accounts_is_fatal:
  assumes "merge_sources P E = (None, s)" and "final_accounts s = []"
  shows "load_and_merge_accounts P E = (Inl (SysExit 1), printed s @ [ErrNoAccounts]) \<and>
         exit_status (main P E) = 1 \<and> exit_status (main P E) \<noteq> 0 \<and>
         config_yaml (main P E) = Unchanged \<and>
         console (main P E) = printed s @ [ErrNoAccounts]"
  using assms by (simp add: load_and_merge_accounts_def main_def)

theorem no_accounts_is_fatal_witness:
  "merge_sources (platform_of (Inr (JArr []))) (standalone [] [] []) = (None, initial_state) \<and>
   final_accounts initial_state = [] \<and>
   exit_status (main (platform_of (Inr (JArr []))) (standalone [] [] [])) = 1 \<and>
   config_yaml (main (platform_of (Inr (JArr []))) (standalone [] [] [])) = Unchanged \<and>
   console (main (platform_of (Inr (JArr []))) (standalone [] [] [])) = [Start, ErrNoAccounts]"
proof -
  let ?P = "platform_of (Inr (JArr []))"
  let ?E = "standalone [] [] []"
  have h1: "merge_sources ?P ?E = (None, initial_state)"
    by (simp add: merge_sources_def load_bulk_def load_standalone_def standalone_def)
  have h2: "final_accounts initial_state = []"
    by (simp add: initial_state_def)
  from no_accounts_is_fatal [OF h1 h2] h1 h2 show ?thesis
    by (simp add: initial_state_def)
qed

subsection \<open>C5\<close>

text \<open>
  Claim C5. For a non-empty bulk variable: when the text does not parse, when the parsed
  root is not a list, and when the list has neither format, the run ends with exit status
  1 in all three cases and leaves the file as it was; in the first case the message
  printed carries the text of the parse error.
\<close>

theorem bad_bulk_json_is_fatal:
  assumes "SKLAND_ACCOUNTS_JSON E \<noteq> []"
  shows "(json_loads P (SKLAND_ACCOUNTS_JSON E) = Inl (JSONDecodeError e) \<longrightarrow>
            exit_status (main P E) = 1 \<and> config_yaml (main P E) = Unchanged \<and>
            console (main P E) = [Start, DetectedJson, ErrInvalidJson e]) \<and>
         (json_loads P (SKLAND_ACCOUNTS_JSON E) = Inr v \<and> \<not> is_list v \<longrightarrow>
            exit_status (main P E) = 1 \<and> config_yaml (main P E) = Unchanged \<and>
            console (main P E) = [Start, DetectedJson, ErrBadFormat (TypeError RootNotArray)]) \<and>
         (json_loads P (SKLAND_ACCOUNTS_JSON E) = Inr (JArr items) \<and> detect_format items = None \<longrightarrow>
            exit_status (main P E) = 1 \<and> config_yaml (main P E) = Unchanged \<and>
            console (main P E) = [Start, DetectedJson, ErrBadFormat (TypeError BadListFormat)])"
proof (intro conjI impI)
  assume l: "json_loads P (SKLAND_ACCOUNTS_JSON E) = Inl (JSONDecodeError e)"
  have "load_and_merge_accounts P E = (Inl (SysExit 1), [Start, DetectedJson, ErrInvalidJson e])"
    using assms l
    by (simp add: load_and_merge_accounts_def merge_sources_def load_bulk_def try_bulk_def
        say_def initial_state_def)
  then show "exit_status (main P E) = 1" "config_yaml (main P E) = Unchanged"
    "console (main P E) = [Start, DetectedJson, ErrInvalidJson e]"
    by (simp_all add: main_def)
next
  assume l: "json_loads P (SKLAND_ACCOUNTS_JSON E) = Inr v \<and> \<not> is_list v"
  have "load_and_merge_accounts P E =
      (Inl (SysExit 1), [Start, DetectedJson, ErrBadFormat (TypeError RootNotArray)])"
    using assms l
    by (cases v)
      (simp_all add: load_and_merge_accounts_def merge_sources_def load_bulk_def try_bulk_def
        process_raw_data_def say_def initial_state_def)
  then show "exit_status (main P E) = 1" "config_yaml (main P E) = Unchanged"
    "console (main P E) = [Start, DetectedJson, ErrBadFormat (TypeError RootNotArray)]"
    by (simp_all add: main_def)
next
  assume l: "json_loads P (SKLAND_ACCOUNTS_JSON E) = Inr (JArr items) \<and> detect_format items = None"
  have "load_and_merge_accounts P E =
      (Inl (SysExit 1), [Start, DetectedJson, ErrBadFormat (TypeError BadListFormat)])"
    using assms l
    by (simp add: load_and_merge_accounts_def merge_sources_def load_bulk_def try_bulk_def
        process_raw_data_def say_def initial_state_def)
  then show "exit_status (main P E) = 1" "config_yaml (main P E) = Unchanged"
    "console (main P E) = [Start, DetectedJson, ErrBadFormat (TypeError BadListFormat)]"
    by (simp_all add: main_def)
qed

theorem bad_bulk_json_is_fatal_witness:
  \<open>exit_status (main (platform_of (Inl (JSONDecodeError (ascii ''Expecting value''))))
      (bulk_only (ascii ''[invalid''))) = 1 \<and>
   console (main (platform_of (Inl (JSONDecodeError (ascii ''Expecting value''))))
      (bulk_only (ascii ''[invalid''))) =
     [Start, DetectedJson, ErrInvalidJson (ascii ''Expecting value'')] \<and>
   exit_status (main (platform_of (Inr (JObj []))) (bulk_only (ascii ''{}''))) = 1 \<and>
   console (main (platform_of (Inr (JObj []))) (bulk_only (ascii ''{}''))) =
     [Start, DetectedJson, ErrBadFormat (TypeError RootNotArray)] \<and>
   exit_status (main (platform_of (Inr (JArr [JInt 1]))) (bulk_only (ascii ''[1]''))) = 1 \<and>
   console (main (platform_of (Inr (JArr [JInt 1]))) (bulk_only (ascii ''[1]''))) =
     [Start, DetectedJson, ErrBadFormat (TypeError BadListFormat)]\<close>
proof -
  have a: "SKLAND_ACCOUNTS_JSON (bulk_only (ascii ''[invalid'')) \<noteq> []"
    by (simp add: bulk_only_def ascii_def)
  have b: "SKLAND_ACCOUNTS_JSON (bulk_only (ascii ''{}'')) \<noteq> []"
    by (simp add: bulk_only_def ascii_def)
  have c: "SKLAND_ACCOUNTS_JSON (bulk_only (ascii ''[1]'')) \<noteq> []"
    by (simp add: bulk_only_def ascii_def)
  have d: "detect_format [JInt 1] = None"
    by (simp add: detect_format_def)
  from bad_bulk_json_is_fatal [OF a,
      of "platform_of (Inl (JSONDecodeError (ascii ''Expecting value'')))" "ascii ''Expecting value''"]
  have 1: "exit_status (main (platform_of (Inl (JSONDecodeError (ascii ''Expecting value''))))
      (bulk_only (ascii ''[invalid''))) = 1 \<and>
   console (main (platform_of (Inl (JSONDecodeError (ascii ''Expecting value''))))
      (bulk_only (ascii ''[invalid''))) =
     [Start, DetectedJson, ErrInvalidJson (ascii ''Expecting value'')]"
    by (simp add: platform_of_def)
  from bad_bulk_json_is_fatal [OF b, of "platform_of (Inr (JObj []))" _ "JObj []"]
  have 2: "exit_status (main (platform_of (Inr (JObj []))) (bulk_only (ascii ''{}''))) = 1 \<and>
   console (main (platform_of (Inr (JObj []))) (bulk_only (ascii ''{}''))) =
     [Start, DetectedJson, ErrBadFormat (TypeError RootNotArray)]"
    by (simp add: platform_of_def)
  from bad_bulk_json_is_fatal [OF c, of "platform_of (Inr (JArr [JInt 1]))" _ _ "[JInt 1]"] d
  have 3: "exit_status (main (platform_of (Inr (JArr [JInt 1]))) (bulk_only (ascii ''[1]''))) = 1 \<and>
   console (main (platform_of (Inr (JArr [JInt 1]))) (bulk_only (ascii ''[1]''))) =
     [Start, DetectedJson, ErrBadFormat (TypeError BadListFormat)]"
    by (simp add: platform_of_def)
  from 1 2 3 show ?thesis by simp
qed

subsection \<open>C6\<close>

text \<open>
  Claim C6. In a run that writes the document, with string nicknames, the users are the
  accepted accounts sorted by nickname in ascending code point order, and accounts of
  equal nickname keep the order in which they were accepted.
\<close>

theorem users_sorted_stable:
  assumes "load_and_merge_accounts P E = (Inr accounts, out)"
    and "list_all (\<lambda>a. is_str (nickname a)) accounts"
    and "config_yaml (main P E) = Replaced cfg"
  shows "sorted (map (\<lambda>u. str_of (nickname u)) (users cfg)) \<and>
         mset (users cfg) = mset accounts \<and>
         (\<forall>k. filter (\<lambda>u. nickname u = JStr k) (users cfg) =
              filter (\<lambda>u. nickname u = JStr k) accounts)"
proof -
  let ?key = "\<lambda>a. str_of (nickname a)"
  from main_Replaced [OF assms(1,3)] sort_accounts_str [OF assms(2), of P]
  have u: "users cfg = sort_key ?key accounts" by auto
  have k: "(nickname a = JStr k) = (?key a = k)" if "a \<in> set accounts" for a k
  proof -
    from that assms(2) have "is_str (nickname a)" by (simp add: list_all_iff)
    then show ?thesis by (cases "nickname a") auto
  qed
  have st: "filter (\<lambda>u. nickname u = JStr k) (users cfg) =
            filter (\<lambda>u. nickname u = JStr k) accounts" for k
  proof -
    have "filter (\<lambda>u. nickname u = JStr k) (sort_key ?key accounts) =
          filter (\<lambda>u. ?key u = k) (sort_key ?key accounts)"
      by (rule filter_cong) (simp_all add: k)
    also have "\<dots> = filter (\<lambda>u. ?key u = k) accounts"
      by (rule sort_key_stable)
    also have "\<dots> = filter (\<lambda>u. nickname u = JStr k) accounts"
      by (rule filter_cong) (simp_all add: k)
    finally show ?thesis by (simp add: u)
  qed
  show ?thesis
    using st by (simp add: u sorted_sort_key)
qed

theorem users_sorted_stable_witness:
  \<open>config_yaml (main
     (platform_of (Inr (JArr [obj1 ''b'' ''t1'', obj1 ''a'' ''t2'', obj1 ''a'' ''t3''])))
     (bulk_only (ascii ''[{"b": "t1"}, {"a": "t2"}, {"a": "t3"}]''))) =
   Replaced \<lparr>log_level = ascii ''info'',
             users = [acct ''a'' ''t2'', acct ''a'' ''t3'', acct ''b'' ''t1'']\<rparr> \<and>
   sorted [ascii ''a'', ascii ''a'', ascii ''b''] \<and>
   filter (\<lambda>u. nickname u = JStr (ascii ''a''))
     [acct ''a'' ''t2'', acct ''a'' ''t3'', acct ''b'' ''t1''] =
   filter (\<lambda>u. nickname u = JStr (ascii ''a''))
     [acct ''b'' ''t1'', acct ''a'' ''t2'', acct ''a'' ''t3'']\<close>
proof -
  have h2: "list_all (\<lambda>a. is_str (nickname a)) [acct ''b'' ''t1'', acct ''a'' ''t2'', acct ''a'' ''t3'']"
    by (simp add: acct_def)
  from users_sorted_stable [OF example_sort_load h2 example_sort_main]
  have "sorted (map (\<lambda>u. str_of (nickname u)) [acct ''a'' ''t2'', acct ''a'' ''t3'', acct ''b'' ''t1'']) \<and>
     filter (\<lambda>u. nickname u = JStr (ascii ''a''))
       [acct ''a'' ''t2'', acct ''a'' ''t3'', acct ''b'' ''t1''] =
     filter (\<lambda>u. nickname u = JStr (ascii ''a''))
       [acct ''b'' ''t1'', acct ''a'' ''t2'', acct ''a'' ''t3'']"
    by simp
  then have "sorted [ascii ''a'', ascii ''a'', ascii ''b''] \<and>
     filter (\<lambda>u. nickname u = JStr (ascii ''a''))
       [acct ''a'' ''t2'', acct ''a'' ''t3'', acct ''b'' ''t1''] =
     filter (\<lambda>u. nickname u = JStr (ascii ''a''))
       [acct ''b'' ''t1'', acct ''a'' ''t2'', acct ''a'' ''t3'']"
    by (simp add: acct_def)
  with example_sort_main show ?thesis by blast
qed

subsection \<open>C7\<close>

text \<open>
  Claim C7. Write the standalone nickname as whitespace, a core that neither begins nor
  ends with whitespace, and whitespace again. Trimming leaves the core; the marker is
  then looked for at the end of the core and removed when it is there, and the result is
  what is stored (the placeholder when nothing is left). So a marker that is followed by
  whitespace is found: the nickname \<open>"  Alice_END  "\<close> is stored as \<open>"Alice"\<close>. Tab,
  line feed, carriage return and space are whitespace.
\<close>

theorem standalone_nickname_trimmed:
  assumes "SKLAND_TOKEN E \<noteq> []" and "JStr (SKLAND_TOKEN E) \<notin> seen_tokens s"
    and "SKLAND_NICKNAME E = l @ core @ r"
    and "list_all isspace l" and "list_all isspace r"
    and "core \<noteq> [] \<longrightarrow> \<not> isspace (hd core) \<and> \<not> isspace (last core)"
    and "stripped = (if endswith core MARKER then take (length core - 4) core else core)"
  shows "strip (SKLAND_NICKNAME E) = core \<and>
         final_accounts (load_standalone E s) =
           final_accounts s @
             [\<lparr>nickname = JStr (if stripped = [] then STANDALONE_NICKNAME else stripped),
               token = JStr (SKLAND_TOKEN E)\<rparr>] \<and>
         list_all isspace [9, 10, 13, 32] \<and>
         remove_marker (strip (ascii ''  Alice_END  '')) = ascii ''Alice''"
proof -
  have t: "strip (SKLAND_NICKNAME E) = core"
    unfolding assms(3) by (rule strip_surrounded [OF assms(4,5,6)])
  have r: "remove_marker core = stripped"
    unfolding assms(7) by (auto simp: remove_marker_def MARKER_length endswith_def)
  have w: "list_all isspace [9, 10, 13, 32]"
    by (simp add: isspace_def)
  have x: "remove_marker (strip (ascii ''  Alice_END  '')) = ascii ''Alice''"
    by (simp add: strip_def remove_marker_def endswith_def MARKER_def ascii_def isspace_def)
  have "final_accounts (load_standalone E s) =
           final_accounts s @
             [\<lparr>nickname = JStr (if stripped = [] then STANDALONE_NICKNAME else stripped),
               token = JStr (SKLAND_TOKEN E)\<rparr>]"
    using assms(1,2) r
    by (simp add: load_standalone_def say_def Let_def t)
  with t w x show ?thesis by blast
qed

theorem standalone_nickname_trimmed_witness:
  "strip (ascii ''  Alice_END  '') = ascii ''Alice_END'' \<and>
   final_accounts (load_standalone (standalone [] (ascii ''tok'') (ascii ''  Alice_END  '')) initial_state) =
     [\<lparr>nickname = JStr (ascii ''Alice''), token = JStr (ascii ''tok'')\<rparr>]"
proof -
  let ?E = "standalone [] (ascii ''tok'') (ascii ''  Alice_END  '')"
  have h1: "SKLAND_TOKEN ?E \<noteq> []"
    by (simp add: standalone_def ascii_def)
  have h2: "JStr (SKLAND_TOKEN ?E) \<notin> seen_tokens initial_state"
    by (simp add: initial_state_def)
  have h3: "SKLAND_NICKNAME ?E = ascii ''  '' @ ascii ''Alice_END'' @ ascii ''  ''"
    by (simp add: standalone_def ascii_def)
  have h4: "list_all isspace (ascii ''  '')"
    by (simp add: ascii_def isspace_def)
  have h6: "ascii ''Alice_END'' \<noteq> [] \<longrightarrow>
      \<not> isspace (hd (ascii ''Alice_END'')) \<and> \<not> isspace (last (ascii ''Alice_END''))"
    by (simp add: ascii_def isspace_def)
  have h7: "ascii ''Alice'' =
      (if endswith (ascii ''Alice_END'') MARKER
       then take (length (ascii ''Alice_END'') - 4) (ascii ''Alice_END'') else ascii ''Alice_END'')"
    by (simp add: endswith_def MARKER_def ascii_def)
  have ne: "ascii ''Alice'' \<noteq> []"
    by (simp add: ascii_def)
  have n: "SKLAND_NICKNAME ?E = ascii ''  Alice_END  ''"
    by (simp add: standalone_def)
  have k: "SKLAND_TOKEN ?E = ascii ''tok''"
    by (simp add: standalone_def)
  from standalone_nickname_trimmed [OF h1 h2 h3 h4 h4 h6 h7] ne show ?thesis
    unfolding n k by (simp add: initial_state_def)
qed

subsection \<open>C8\<close>

text \<open>
  Claim C8. In every document the run writes, \<open>log_level\<close> is \<open>"info"\<close>, every user has
  a non-empty token and the tokens of the users are pairwise distinct. The sort of the
  library is taken to return a rearrangement of its list.
\<close>

theorem output_document_invariant:
  assumes "config_yaml (main P E) = Replaced cfg"
    and "\<And>xs ys. list_sort P xs = Inr ys \<Longrightarrow> mset ys = mset xs"
  shows "log_level cfg = ascii ''info'' \<and>
         list_all (\<lambda>u. truthy (token u) \<and> token u \<noteq> JStr []) (users cfg) \<and>
         distinct (map token (users cfg))"
proof -
  from main_Replaced_load [OF assms(1)] obtain accounts out
    where l: "load_and_merge_accounts P E = (Inr accounts, out)" by blast
  from load_and_merge_accounts_Inr [OF l] obtain s
    where a: "accounts = final_accounts s" and ok: "tokens_ok s" by blast
  from main_Replaced [OF l assms(1)] obtain sorted_accounts
    where so: "sort_accounts P accounts = Inr sorted_accounts"
      and c: "cfg = \<lparr>log_level = ascii ''info'', users = sorted_accounts\<rparr>" by blast
  have m: "mset sorted_accounts = mset accounts"
  proof (cases "list_all (\<lambda>a. is_str (nickname a)) accounts")
    case True
    with so show ?thesis by (auto simp: sort_accounts_def)
  next
    case False
    with so have "list_sort P accounts = Inr sorted_accounts" by (simp add: sort_accounts_def)
    then show ?thesis by (rule assms(2))
  qed
  then have mt: "mset (map token sorted_accounts) = mset (map token accounts)"
    by (metis mset_map)
  from m have se: "set sorted_accounts = set accounts"
    by (rule mset_eq_setD)
  from ok a have "distinct (map token accounts)" "\<forall>u\<in>set accounts. truthy (token u)"
    by (simp_all add: tokens_ok_def list_all_iff)
  with mset_eq_imp_distinct_iff [OF mt] se
  have "distinct (map token sorted_accounts)" "\<forall>u\<in>set sorted_accounts. truthy (token u)"
    by simp_all
  then show ?thesis
    by (auto simp: c list_all_iff)
qed

theorem output_document_invariant_witness:
  \<open>config_yaml (main
     (platform_of (Inr (JArr [obj1 ''b'' ''t1'', obj1 ''a'' ''t2'', obj1 ''a'' ''t3''])))
     (bulk_only (ascii ''[{"b": "t1"}, {"a": "t2"}, {"a": "t3"}]''))) =
   Replaced \<lparr>log_level = ascii ''info'',
             users = [acct ''a'' ''t2'', acct ''a'' ''t3'', acct ''b'' ''t1'']\<rparr> \<and>
   distinct (map token [acct ''a'' ''t2'', acct ''a'' ''t3'', acct ''b'' ''t1'']) \<and>
   list_all (\<lambda>u. truthy (token u) \<and> token u \<noteq> JStr [])
     [acct ''a'' ''t2'', acct ''a'' ''t3'', acct ''b'' ''t1'']\<close>
proof -
  have p: "mset ys = mset xs"
    if "list_sort (platform_of (Inr (JArr [obj1 ''b'' ''t1'', obj1 ''a'' ''t2'', obj1 ''a'' ''t3'']))) xs = Inr ys"
    for xs ys
    using that by (simp add: platform_of_def)
  from output_document_invariant [OF example_sort_main p] example_sort_main
  show ?thesis by simp
qed

subsection \<open>C9\<close>

text \<open>
  Claim C9. The empty array as bulk input is taken for the new (compact) format, raises
  no format error and contributes no account; with no standalone token the run then ends
  with the error of the final check alone.
\<close>

theorem empty_array_is_new_format:
  assumes "SKLAND_ACCOUNTS_JSON E = ascii ''[]''"
    and "json_loads P (ascii ''[]'') = Inr (JArr [])"
  shows "detect_format [] = Some New \<and>
         load_bulk P E =
           (None, \<lparr>final_accounts = [], seen_tokens = {}, unnamed_account_counter = 0,
                    printed = [Start, DetectedJson, Recognised New, LoadedFromJson 0]\<rparr>) \<and>
         (SKLAND_TOKEN E = [] \<longrightarrow>
            load_and_merge_accounts P E =
              (Inl (SysExit 1),
               [Start, DetectedJson, Recognised New, LoadedFromJson 0, ErrNoAccounts]) \<and>
            exit_status (main P E) = 1 \<and> config_yaml (main P E) = Unchanged)"
proof -
  have d: "detect_format [] = Some New"
    by (simp add: detect_format_def)
  have ne: "ascii ''[]'' \<noteq> []"
    by (simp add: ascii_def)
  have lb: "load_bulk P E =
           (None, \<lparr>final_accounts = [], seen_tokens = {}, unnamed_account_counter = 0,
                    printed = [Start, DetectedJson, Recognised New, LoadedFromJson 0]\<rparr>)"
    using ne by (simp add: load_bulk_def try_bulk_def process_raw_data_def d assms say_def initial_state_def)
  have "load_and_merge_accounts P E =
              (Inl (SysExit 1),
               [Start, DetectedJson, Recognised New, LoadedFromJson 0, ErrNoAccounts])"
    if "SKLAND_TOKEN E = []"
    using that by (simp add: load_and_merge_accounts_def merge_sources_def lb load_standalone_def)
  then show ?thesis
    using d lb by (simp add: main_def)
qed

theorem empty_array_is_new_format_witness:
  "load_and_merge_accounts (platform_of (Inr (JArr []))) (bulk_only (ascii ''[]'')) =
     (Inl (SysExit 1), [Start, DetectedJson, Recognised New, LoadedFromJson 0, ErrNoAccounts]) \<and>
   exit_status (main (platform_of (Inr (JArr []))) (bulk_only (ascii ''[]''))) = 1"
proof -
  have h1: "SKLAND_ACCOUNTS_JSON (bulk_only (ascii ''[]'')) = ascii ''[]''"
    by (simp add: bulk_only_def)
  have h2: "json_loads (platform_of (Inr (JArr []))) (ascii ''[]'') = Inr (JArr [])"
    by (simp add: platform_of_def)
  have h3: "SKLAND_TOKEN (bulk_only (ascii ''[]'')) = []"
    by (simp add: bulk_only_def)
  from empty_array_is_new_format [OF h1 h2] h3 show ?thesis by simp
qed

subsection \<open>C10\<close>

text \<open>
  Claim C10. \<open>remove_marker\<close> removes one trailing occurrence of the marker \<open>_END\<close> and
  no more: a string that ends with the marker loses its last four code points, a string
  that does not is returned as it is, and a string that ends with the marker twice
  still ends with it once afterwards.
\<close>

theorem remove_marker_once:
  "MARKER = ascii ''_END'' \<and>
   (endswith s MARKER \<longrightarrow> remove_marker s = take (length s - 4) s) \<and>
   (\<not> endswith s MARKER \<longrightarrow> remove_marker s = s) \<and>
   remove_marker (x @ MARKER @ MARKER) = x @ MARKER \<and>
   endswith (remove_marker (x @ MARKER @ MARKER)) MARKER"
proof -
  have a: "endswith s MARKER \<Longrightarrow> s \<noteq> []"
    by (auto simp: endswith_def MARKER_length)
  have b: "endswith ((x @ MARKER) @ MARKER) MARKER"
    by (rule endswith_append)
  have c: "remove_marker (x @ MARKER @ MARKER) = x @ MARKER"
    using b by (simp add: remove_marker_def MARKER_length)
  show ?thesis
  proof (intro conjI impI)
    show "MARKER = ascii ''_END''"
      by (simp add: MARKER_def)
    show "remove_marker s = take (length s - 4) s" if "endswith s MARKER"
      using that a by (simp add: remove_marker_def MARKER_length)
    show "remove_marker s = s" if "\<not> endswith s MARKER"
      using that by (simp add: remove_marker_def)
    show "remove_marker (x @ MARKER @ MARKER) = x @ MARKER"
      by (rule c)
    show "endswith (remove_marker (x @ MARKER @ MARKER)) MARKER"
      unfolding c by (rule endswith_append)
  qed
qed

theorem remove_marker_once_witness:
  "endswith (ascii ''Alice_END'') MARKER \<and>
   remove_marker (ascii ''Alice_END'') = ascii ''Alice'' \<and>
   \<not> endswith (ascii ''Alice'') MARKER \<and>
   remove_marker (ascii ''Alice'') = ascii ''Alice'' \<and>
   remove_marker (ascii ''Bob_END_END'') = ascii ''Bob_END''"
proof -
  have e: "endswith (ascii ''Alice_END'') MARKER"
    by (simp add: endswith_def MARKER_def ascii_def)
  have n: "\<not> endswith (ascii ''Alice'') MARKER"
    by (simp add: endswith_def MARKER_def ascii_def)
  note t1 = remove_marker_once [of "ascii ''Alice_END''" "ascii ''Bob''"]
  note t2 = remove_marker_once [of "ascii ''Alice''" "ascii ''Bob''"]
  from t1 e have "remove_marker (ascii ''Alice_END'') =
      take (length (ascii ''Alice_END'') - 4) (ascii ''Alice_END'')"
    by blast
  then have 1: "remove_marker (ascii ''Alice_END'') = ascii ''Alice''"
    by (simp add: ascii_def)
  from t2 n have 2: "remove_marker (ascii ''Alice'') = ascii ''Alice''"
    by blast
  from t2 have "remove_marker (ascii ''Bob'' @ MARKER @ MARKER) = ascii ''Bob'' @ MARKER"
    by blast
  then have 3: "remove_marker (ascii ''Bob_END_END'') = ascii ''Bob_END''"
    by (simp add: MARKER_def ascii_def)
  show ?thesis using e n 1 2 3 by simp
qed

end
